theory Spec2Isabelle
  imports Main "HOL-Library.Sublist"
begin

section \<open>Tag classification tables\<close>

text \<open>
  The module constant \<open>HTML_VOID_ELEMENTS\<close> and the parser attribute
  \<open>raw_context_tags\<close>, both fixed sets of lower-case tag names. The parser attribute
  \<open>void_elements\<close> is bound to the first one in \<open>__init__\<close> and never rebound.
\<close>

definition HTML_VOID_ELEMENTS :: "string set" where
  "HTML_VOID_ELEMENTS =
     {''area'', ''base'', ''br'', ''col'', ''embed'', ''hr'', ''img'', ''input'',
      ''link'', ''meta'', ''param'', ''source'', ''track'', ''wbr''}"

definition raw_context_tags :: "string set" where
  "raw_context_tags = {''pre'', ''code'', ''script'', ''style''}"

section \<open>Diagnostics\<close>

text \<open>
  An entry of an error list is a pair of a position and a message. The position is a
  \<open>(line, column)\<close> tuple for the tag parser and for a tree parse error, and a bare line
  number for the Moodle checker; the report loop tells them apart with \<open>isinstance\<close>.
\<close>

datatype position = Tuple "int \<times> int" | Scalar int

type_synonym diagnostic = "position \<times> string"

section \<open>The tag parser \<open>MyHTMLParser\<close>\<close>

record parser =
  tags_stack :: "string list"
  errors :: "diagnostic list"
  tags_count :: int
  is_in_raw_context :: bool

definition new_parser :: parser where
  "new_parser =
     \<lparr>tags_stack = [], errors = [], tags_count = 0, is_in_raw_context = False\<rparr>"

text \<open>
  \<open>tags_stack\<close> is a Python list used as a stack: \<open>append\<close> adds at the end,
  \<open>tags_stack[-1]\<close> is the last element and \<open>pop()\<close> removes it. Both reads of
  \<open>tags_stack[-1]\<close> in \<open>handle_endtag\<close> are behind the emptiness test.
\<close>

definition handle_starttag ::
  "parser \<Rightarrow> string \<Rightarrow> (string \<times> string option) list \<Rightarrow> parser" where
  "handle_starttag p tag attrs =
     (let p1 = p\<lparr>tags_count := tags_count p + 1\<rparr> in
      if is_in_raw_context p1 then p1
      else
        let p2 = (if tag \<in> raw_context_tags
                  then p1\<lparr>is_in_raw_context := True\<rparr> else p1) in
        if tag \<notin> HTML_VOID_ELEMENTS
        then p2\<lparr>tags_stack := tags_stack p2 @ [tag]\<rparr>
        else p2)"

definition superfluous_msg :: "string \<Rightarrow> string" where
  "superfluous_msg tag = ''Superfluous closing tag for void element: </'' @ tag @ ''>''"

definition unmatched_msg :: "string \<Rightarrow> string" where
  "unmatched_msg tag = ''Unmatched closing tag: '' @ tag @ '' (stack is empty)''"

definition mismatched_msg :: "string \<Rightarrow> string \<Rightarrow> string" where
  "mismatched_msg expected_tag tag =
     ''Mismatched closing tag: expected </'' @ expected_tag @ ''> but got </'' @ tag @ ''>''"

definition unclosed_msg :: "string \<Rightarrow> string" where
  "unclosed_msg unclosed_tag = ''Unclosed tag: '' @ unclosed_tag"

text \<open>The second argument of \<open>handle_endtag\<close> is what \<open>self.getpos()\<close> returns during the call.\<close>

definition handle_endtag :: "parser \<Rightarrow> string \<Rightarrow> int \<times> int \<Rightarrow> parser" where
  "handle_endtag p tag pos =
     (if is_in_raw_context p \<and> tag \<notin> raw_context_tags then p
      else
        let p1 = (if tag \<in> raw_context_tags
                  then p\<lparr>is_in_raw_context := False\<rparr> else p) in
        if tag \<in> HTML_VOID_ELEMENTS
        then p1\<lparr>errors := errors p1 @ [(Tuple pos, superfluous_msg tag)]\<rparr>
        else if tags_stack p1 = []
        then p1\<lparr>errors := errors p1 @ [(Tuple pos, unmatched_msg tag)]\<rparr>
        else if last (tags_stack p1) = tag
        then p1\<lparr>tags_stack := butlast (tags_stack p1)\<rparr>
        else
          let expected_tag = last (tags_stack p1) in
          p1\<lparr>errors := errors p1 @ [(Tuple pos, mismatched_msg expected_tag tag)]\<rparr>)"

definition error :: "parser \<Rightarrow> string \<Rightarrow> int \<times> int \<Rightarrow> parser" where
  "error p message pos = p\<lparr>errors := errors p @ [(Tuple pos, message)]\<rparr>"

text \<open>
  The tokenizer of the base class \<open>HTMLParser\<close> is a library: \<open>feed\<close> turns the text
  into calls of the three callbacks, in document order. A call is an event.
\<close>

datatype tag_event =
    Open string "(string \<times> string option) list"
  | Close string "int \<times> int"
  | LexError string "int \<times> int"

fun dispatch :: "parser \<Rightarrow> tag_event \<Rightarrow> parser" where
  "dispatch p (Open tag attrs) = handle_starttag p tag attrs"
| "dispatch p (Close tag pos) = handle_endtag p tag pos"
| "dispatch p (LexError message pos) = error p message pos"

primrec feed :: "parser \<Rightarrow> tag_event list \<Rightarrow> parser" where
  "feed p [] = p"
| "feed p (e # es) = feed (dispatch p e) es"

section \<open>The HTML branch of \<open>validate_file\<close>\<close>

record stats =
  tags :: int
  errors_total :: int

text \<open>The loop \<open>for unclosed_tag in reversed(parser.tags_stack): errors.append(...)\<close>.\<close>

primrec append_unclosed :: "diagnostic list \<Rightarrow> string list \<Rightarrow> diagnostic list" where
  "append_unclosed errs [] = errs"
| "append_unclosed errs (unclosed_tag # rest) =
     append_unclosed (errs @ [(Tuple (0, 0), unclosed_msg unclosed_tag)]) rest"

definition validate_html :: "tag_event list \<Rightarrow> diagnostic list \<times> stats" where
  "validate_html events =
     (let p = feed new_parser events;
          errs = (if tags_stack p \<noteq> []
                  then append_unclosed (errors p) (rev (tags_stack p))
                  else errors p)
      in (errs, \<lparr>tags = tags_count p, errors_total = int (length errs)\<rparr>))"

fun is_open :: "tag_event \<Rightarrow> bool" where
  "is_open (Open _ _) = True"
| "is_open _ = False"

definition void_free :: "string list \<Rightarrow> bool" where
  "void_free stack = list_all (\<lambda>t. t \<notin> HTML_VOID_ELEMENTS) stack"

text \<open>Predicates on events used to state properties of event sequences.\<close>

fun nested_in_raw :: "tag_event \<Rightarrow> bool" where
  "nested_in_raw (Open _ _) = True"
| "nested_in_raw (Close name _) = (name \<notin> raw_context_tags)"
| "nested_in_raw (LexError _ _) = False"

fun closes :: "string \<Rightarrow> tag_event \<Rightarrow> bool" where
  "closes tag (Close name _) = (name = tag)"
| "closes tag _ = False"

definition unclosed :: "string \<Rightarrow> diagnostic" where
  "unclosed unclosed_tag = (Tuple (0, 0), unclosed_msg unclosed_tag)"

section \<open>The Moodle multichoice checker\<close>

text \<open>
  The tree is built by \<open>xml.etree.ElementTree\<close>. An \<open>Element\<close> of that library has a
  tag, a dictionary of attributes and an ordered sequence of children (its \<open>text\<close> and
  \<open>tail\<close> are not read here). It has no other attribute: reading one raises
  \<open>AttributeError\<close>.
\<close>

datatype element =
  Element (elem_tag: string) (elem_attrib: "(string \<times> string) list")
    (elem_children: "element list")

datatype exn = AttributeError string

fun iter :: "element \<Rightarrow> element list" where
  "iter (Element t a cs) = Element t a cs # concat (map iter cs)"

definition get_attr :: "element \<Rightarrow> string \<Rightarrow> string option" where
  "get_attr e key = map_of (elem_attrib e) key"

text \<open>
  \<open>root.findall(".//question[@type='multichoice']")\<close>: the elements below the root, at
  any depth and in document order, whose tag is \<open>question\<close> and whose attribute
  \<open>type\<close> is \<open>multichoice\<close>. The root itself is not among them.
\<close>

definition findall_multichoice :: "element \<Rightarrow> element list" where
  "findall_multichoice root =
     filter (\<lambda>e. elem_tag e = ''question'' \<and> get_attr e ''type'' = Some ''multichoice'')
       (concat (map iter (elem_children root)))"

text \<open>\<open>q.find(name)\<close> and \<open>q.findall(name)\<close> with a plain tag name look at direct children.\<close>

definition find_child :: "element \<Rightarrow> string \<Rightarrow> element option" where
  "find_child q name = List.find (\<lambda>c. elem_tag c = name) (elem_children q)"

definition findall_children :: "element \<Rightarrow> string \<Rightarrow> element list" where
  "findall_children q name = filter (\<lambda>c. elem_tag c = name) (elem_children q)"

text \<open>\<open>q.sourceline\<close>: the attribute does not exist on a library element.\<close>

definition sourceline :: "element \<Rightarrow> exn + int" where
  "sourceline q = Inl (AttributeError ''sourceline'')"

text \<open>\<open>errors.append((q.sourceline, msg))\<close>: the tuple is built first, so a failing read appends nothing.\<close>

definition append_at_sourceline ::
  "diagnostic list \<Rightarrow> element \<Rightarrow> string \<Rightarrow> exn + diagnostic list" where
  "append_at_sourceline errs q msg =
     (case sourceline q of
        Inl e \<Rightarrow> Inl e
      | Inr line \<Rightarrow> Inr (errs @ [(Scalar line, msg)]))"

definition check_question :: "diagnostic list \<Rightarrow> element \<Rightarrow> exn + diagnostic list" where
  "check_question errs q =
     (case (if find_child q ''name'' = None
            then append_at_sourceline errs q ''Missing <name> tag in multichoice question''
            else Inr errs) of
        Inl e \<Rightarrow> Inl e
      | Inr errs1 \<Rightarrow>
          (case (if find_child q ''questiontext'' = None
                 then append_at_sourceline errs1 q
                        ''Missing <questiontext> tag in multichoice question''
                 else Inr errs1) of
             Inl e \<Rightarrow> Inl e
           | Inr errs2 \<Rightarrow>
               (let answers = findall_children q ''answer'' in
                if answers = []
                then append_at_sourceline errs2 q
                       ''No <answer> tags found in multichoice question''
                else Inr errs2)))"

fun check_questions :: "diagnostic list \<Rightarrow> element list \<Rightarrow> exn + diagnostic list" where
  "check_questions errs [] = Inr errs"
| "check_questions errs (q # questions) =
     (case check_question errs q of
        Inl e \<Rightarrow> Inl e
      | Inr errs' \<Rightarrow> check_questions errs' questions)"

definition validate_moodle_mc :: "element \<Rightarrow> exn + diagnostic list" where
  "validate_moodle_mc root = check_questions [] (findall_multichoice root)"

section \<open>The XML branch of \<open>validate_file\<close> and the dispatch on the format\<close>

text \<open>
  \<open>ET.fromstring\<close> is the library's tree parser, taken as a parameter: it returns the root
  or raises \<open>ParseError\<close>, whose \<open>position\<close> is a \<open>(line, column)\<close> tuple and whose
  \<open>str\<close> is the message. Only \<open>ParseError\<close> is caught; an exception of the checker
  leaves \<open>validate_file\<close>. The checker is a parameter of \<open>validate_xml\<close> so that a
  statement can range over it; \<open>validate_file\<close> passes \<open>validate_moodle_mc\<close>.
\<close>

datatype parse_error = ParseError "int \<times> int" string

definition validate_xml ::
  "(element \<Rightarrow> exn + diagnostic list) \<Rightarrow> (string \<Rightarrow> parse_error + element) \<Rightarrow>
   string \<Rightarrow> string option \<Rightarrow> exn + diagnostic list \<times> stats" where
  "validate_xml checker fromstring content schema_option =
     (case fromstring content of
        Inl (ParseError position msg) \<Rightarrow>
          Inr ([] @ [(Tuple position, msg)], \<lparr>tags = 0, errors_total = 1\<rparr>)
      | Inr root \<Rightarrow>
          (let n = int (length (iter root)) in
           if schema_option = Some ''moodlemc''
           then (case checker root of
                   Inl e \<Rightarrow> Inl e
                 | Inr errs \<Rightarrow> Inr (errs, \<lparr>tags = n, errors_total = int (length errs)\<rparr>))
           else Inr ([], \<lparr>tags = n, errors_total = int (length ([] :: diagnostic list))\<rparr>)))"

text \<open>
  \<open>validate_file\<close> on the text already read; \<open>tokenize\<close> stands for the base class's
  \<open>feed\<close>. A format other than the two leaves the error list empty and both counts zero.
\<close>

definition validate_file ::
  "(string \<Rightarrow> tag_event list) \<Rightarrow> (string \<Rightarrow> parse_error + element) \<Rightarrow>
   string \<Rightarrow> string \<Rightarrow> string option \<Rightarrow> exn + diagnostic list \<times> stats" where
  "validate_file tokenize fromstring content file_format schema_option =
     (if file_format = ''HTML'' then Inr (validate_html (tokenize content))
      else if file_format = ''XML''
      then validate_xml validate_moodle_mc fromstring content schema_option
      else Inr ([], \<lparr>tags = 0, errors_total = 0\<rparr>))"

section \<open>Format detection\<close>

text \<open>
  \<open>detect_format\<close> on the decoded text of the file. \<open>f.read(200)\<close> gives at most the first
  200 characters; \<open>str.lower\<close> is the library's lower-casing, taken as a parameter;
  \<open>a in b\<close> on strings is the contiguous-substring test.
\<close>

definition detect_format :: "(string \<Rightarrow> string) \<Rightarrow> string \<Rightarrow> string" where
  "detect_format lower text =
     (let content = lower (take 200 text) in
      if sublist ''<html'' content then ''HTML''
      else if sublist ''<quiz'' content \<or> sublist ''<question'' content then ''XML''
      else ''Unknown'')"

text \<open>Lower-casing of ASCII letters, an instance of \<open>str.lower\<close> on ASCII text.\<close>

definition ascii_lower :: "string \<Rightarrow> string" where
  "ascii_lower s =
     map (\<lambda>c. case map_of (zip ''ABCDEFGHIJKLMNOPQRSTUVWXYZ''
                                 ''abcdefghijklmnopqrstuvwxyz'') c of
                 Some l \<Rightarrow> l
               | None \<Rightarrow> c) s"

section \<open>Tag counting\<close>

lemma tags_count_dispatch:
  "tags_count (dispatch p e) = tags_count p + (if is_open e then 1 else 0)"
  by (cases e) (simp_all add: handle_starttag_def handle_endtag_def error_def Let_def)

lemma tags_count_feed:
  "tags_count (feed p es) = tags_count p + int (length (filter is_open es))"
  by (induction es arbitrary: p) (simp_all add: tags_count_dispatch)

text \<open>
  C6. Every \<open>Open\<close> event adds exactly one to the tag counter, whatever the tag name and
  whether or not the parser is in a raw context; \<open>Close\<close> and \<open>LexError\<close> events leave the
  counter alone; the count returned for a document is the number of its \<open>Open\<close> events.
\<close>

theorem tag_count_is_number_of_opens:
  "tags_count (dispatch p (Open tag attrs)) = tags_count p + 1
   \<and> tags_count (dispatch p (Close tag pos)) = tags_count p
   \<and> tags_count (dispatch p (LexError message pos)) = tags_count p
   \<and> tags (snd (validate_html events)) = int (length (filter is_open events))"
proof -
  have "tags_count (dispatch p (Open tag attrs)) = tags_count p + 1"
    by (simp only: tags_count_dispatch is_open.simps if_True)
  moreover have "tags_count (dispatch p (Close tag pos)) = tags_count p"
    by (simp only: tags_count_dispatch is_open.simps if_False add_0_right)
  moreover have "tags_count (dispatch p (LexError message pos)) = tags_count p"
    by (simp only: tags_count_dispatch is_open.simps if_False add_0_right)
  moreover have "tags (snd (validate_html events)) = int (length (filter is_open events))"
    by (simp add: validate_html_def Let_def tags_count_feed new_parser_def)
  ultimately show ?thesis by blast
qed

theorem tag_count_is_number_of_opens_witness:
  "tags (snd (validate_html
     [Open ''p'' [], Open ''br'' [], Open ''pre'' [], Open ''b'' [], Close ''i'' (1, 20),
      LexError ''bad'' (1, 24), Close ''pre'' (1, 30), Close ''p'' (1, 36)])) = 4"
  using tag_count_is_number_of_opens
    [of new_parser "''p''" "[]" "(1, 36)" "''bad''"
      "[Open ''p'' [], Open ''br'' [], Open ''pre'' [], Open ''b'' [], Close ''i'' (1, 20),
        LexError ''bad'' (1, 24), Close ''pre'' (1, 30), Close ''p'' (1, 36)]"]
  by simp

section \<open>Facts about the tables\<close>

lemma void_not_raw: "tag \<in> HTML_VOID_ELEMENTS \<Longrightarrow> tag \<notin> raw_context_tags"
  by (auto simp: HTML_VOID_ELEMENTS_def raw_context_tags_def)

section \<open>The stack invariant\<close>

lemma void_free_Nil: "void_free []"
  by (simp add: void_free_def)

lemma void_free_append:
  "void_free (xs @ [t]) \<longleftrightarrow> void_free xs \<and> t \<notin> HTML_VOID_ELEMENTS"
  by (auto simp: void_free_def)

lemma void_free_butlast: "void_free xs \<Longrightarrow> void_free (butlast xs)"
  by (auto simp: void_free_def list_all_iff dest: in_set_butlastD)

lemma void_free_handle_starttag:
  "void_free (tags_stack p) \<Longrightarrow> void_free (tags_stack (handle_starttag p tag attrs))"
  by (simp add: handle_starttag_def Let_def void_free_append)

lemma void_free_handle_endtag:
  "void_free (tags_stack p) \<Longrightarrow> void_free (tags_stack (handle_endtag p tag pos))"
  by (simp add: handle_endtag_def Let_def void_free_butlast void_free_Nil)

lemma void_free_dispatch:
  "void_free (tags_stack p) \<Longrightarrow> void_free (tags_stack (dispatch p e))"
  by (cases e) (simp_all add: void_free_handle_starttag void_free_handle_endtag error_def)

lemma void_free_feed:
  "void_free (tags_stack p) \<Longrightarrow> void_free (tags_stack (feed p es))"
  by (induction es arbitrary: p) (simp_all add: void_free_dispatch)

text \<open>
  C9. The open stack never holds a void element name: the empty stack of a new parser
  holds none, every event (\<open>Open\<close>, \<open>Close\<close> or \<open>LexError\<close>) preserves the property, and
  so it holds in the state reached after any sequence of events.
\<close>

theorem stack_never_holds_void:
  "void_free (tags_stack new_parser)
   \<and> (void_free (tags_stack p) \<longrightarrow> void_free (tags_stack (dispatch p e)))
   \<and> void_free (tags_stack (feed new_parser events))"
proof -
  have init: "void_free (tags_stack new_parser)"
    by (simp add: new_parser_def void_free_def)
  from init have "void_free (tags_stack (feed new_parser events))"
    by (rule void_free_feed)
  with init show ?thesis
    using void_free_dispatch by blast
qed

theorem stack_never_holds_void_witness:
  "void_free [''div'', ''pre'']
   \<and> void_free (tags_stack (dispatch
        \<lparr>tags_stack = [''div'', ''pre''], errors = [], tags_count = 2,
         is_in_raw_context = False\<rparr> (Open ''br'' [])))
   \<and> tags_stack (feed new_parser
        [Open ''div'' [], Open ''img'' [], Open ''p'' [], Close ''img'' (1, 20),
         Open ''hr'' [], Close ''p'' (2, 1), Open ''span'' []]) = [''div'', ''span'']
   \<and> void_free [''div'', ''span'']"
proof -
  let ?p = "\<lparr>tags_stack = [''div'', ''pre''], errors = [], tags_count = 2,
             is_in_raw_context = False\<rparr>"
  let ?es = "[Open ''div'' [], Open ''img'' [], Open ''p'' [], Close ''img'' (1, 20),
         Open ''hr'' [], Close ''p'' (2, 1), Open ''span'' []]"
  have h: "void_free (tags_stack ?p)"
    by (simp add: void_free_def HTML_VOID_ELEMENTS_def)
  have st: "tags_stack (feed new_parser ?es) = [''div'', ''span'']"
    by (simp add: new_parser_def handle_starttag_def handle_endtag_def Let_def
        HTML_VOID_ELEMENTS_def raw_context_tags_def)
  from stack_never_holds_void [of ?p "Open ''br'' []" ?es] h st
  show ?thesis by simp
qed

section \<open>End-of-input accounting\<close>

lemma append_unclosed_eq: "append_unclosed errs ts = errs @ map unclosed ts"
  by (induction ts arbitrary: errs) (simp_all add: unclosed_def)

text \<open>
  C5. At the end of the input the diagnostics are those of the document, in the order
  they were raised, followed by one \<open>Unclosed tag\<close> diagnostic for each name left on
  the stack, from the top of the stack (most recently opened) to its bottom, each at
  the position \<open>(0, 0)\<close>.
\<close>

theorem unclosed_after_document_top_first:
  "fst (validate_html events) =
     errors (feed new_parser events) @ map unclosed (rev (tags_stack (feed new_parser events)))
   \<and> errors_total (snd (validate_html events)) =
       int (length (errors (feed new_parser events)))
       + int (length (tags_stack (feed new_parser events)))
   \<and> (\<forall>t. unclosed t = (Tuple (0, 0), ''Unclosed tag: '' @ t))"
  by (simp add: validate_html_def Let_def append_unclosed_eq unclosed_def unclosed_msg_def)

theorem unclosed_after_document_top_first_witness:
  "fst (validate_html [Open ''div'' [], Open ''span'' [], Close ''div'' (1, 17)]) =
     [(Tuple (1, 17), ''Mismatched closing tag: expected </span> but got </div>''),
      (Tuple (0, 0), ''Unclosed tag: span''),
      (Tuple (0, 0), ''Unclosed tag: div'')]"
proof -
  let ?es = "[Open ''div'' [], Open ''span'' [], Close ''div'' (1, 17)]"
  have "feed new_parser ?es =
      \<lparr>tags_stack = [''div'', ''span''],
       errors = [(Tuple (1, 17), ''Mismatched closing tag: expected </span> but got </div>'')],
       tags_count = 2, is_in_raw_context = False\<rparr>"
    by (simp add: new_parser_def handle_starttag_def handle_endtag_def Let_def
        HTML_VOID_ELEMENTS_def raw_context_tags_def mismatched_msg_def)
  with unclosed_after_document_top_first [of ?es]
  show ?thesis by simp
qed

section \<open>Closing tags\<close>

text \<open>
  C2, as the code has it. A \<open>Close\<close> event of a void name that arrives outside a raw
  context adds exactly one \<open>Superfluous closing tag\<close> diagnostic at the event's position
  and changes nothing else, whatever the stack holds; inside a raw context the event is
  ignored and the state, with its diagnostics, is unchanged.
\<close>

theorem void_close_outside_raw:
  assumes "tag \<in> HTML_VOID_ELEMENTS"
  shows "(\<not> is_in_raw_context p \<longrightarrow>
            dispatch p (Close tag pos) =
              p\<lparr>errors := errors p @ [(Tuple pos, superfluous_msg tag)]\<rparr>)
         \<and> (is_in_raw_context p \<longrightarrow> dispatch p (Close tag pos) = p)"
  using assms void_not_raw [OF assms] by (simp add: handle_endtag_def Let_def)

theorem void_close_outside_raw_witness:
  "dispatch \<lparr>tags_stack = [''br''], errors = [], tags_count = 1, is_in_raw_context = False\<rparr>
     (Close ''br'' (3, 4))
   = \<lparr>tags_stack = [''br''],
      errors = [(Tuple (3, 4), ''Superfluous closing tag for void element: </br>'')],
      tags_count = 1, is_in_raw_context = False\<rparr>
   \<and> dispatch \<lparr>tags_stack = [''pre''], errors = [], tags_count = 1, is_in_raw_context = True\<rparr>
     (Close ''br'' (3, 4))
   = \<lparr>tags_stack = [''pre''], errors = [], tags_count = 1, is_in_raw_context = True\<rparr>"
proof -
  have v: "''br'' \<in> HTML_VOID_ELEMENTS" by (simp add: HTML_VOID_ELEMENTS_def)
  from void_close_outside_raw [OF v,
      of "\<lparr>tags_stack = [''br''], errors = [], tags_count = 1, is_in_raw_context = False\<rparr>"
         "(3, 4)"]
    void_close_outside_raw [OF v,
      of "\<lparr>tags_stack = [''pre''], errors = [], tags_count = 1, is_in_raw_context = True\<rparr>"
         "(3, 4)"]
  show ?thesis by (simp add: superfluous_msg_def)
qed

text \<open>
  C2 as stated fails: in the raw context opened by \<open>pre\<close>, the \<open>Close\<close> event of the
  void name \<open>br\<close> adds no diagnostic, and the whole document has none.
\<close>

theorem void_close_in_raw_counterexample:
  "''br'' \<in> HTML_VOID_ELEMENTS
   \<and> is_in_raw_context (feed new_parser [Open ''pre'' []])
   \<and> errors (dispatch (feed new_parser [Open ''pre'' []]) (Close ''br'' (1, 5)))
       = errors (feed new_parser [Open ''pre'' []])
   \<and> fst (validate_html [Open ''pre'' [], Close ''br'' (1, 5), Close ''pre'' (1, 10)]) = []"
  by (simp add: validate_html_def new_parser_def handle_starttag_def handle_endtag_def Let_def
      HTML_VOID_ELEMENTS_def raw_context_tags_def)

text \<open>
  C3. Outside a raw context and with a non-empty stack, a \<open>Close\<close> event of an ordinary
  name that differs from the top of the stack adds one \<open>Mismatched closing tag\<close>
  diagnostic that names the top of the stack and the closed name, and changes nothing
  else; a following \<open>Close\<close> of the name on top then pops it without a further
  diagnostic. The text of the diagnostic is
  \<open>Mismatched closing tag: expected </top> but got </name>\<close>, with the name on top of the
  stack and the closed name in these places. The stack is one that holds no void name, as
  every stack of the parser does.
\<close>

theorem mismatched_close_keeps_stack:
  assumes "tags_stack p \<noteq> []" and "void_free (tags_stack p)"
    and "\<not> is_in_raw_context p"
    and "tag \<notin> HTML_VOID_ELEMENTS" and "tag \<notin> raw_context_tags"
    and "last (tags_stack p) \<noteq> tag"
  shows "dispatch p (Close tag pos) =
           p\<lparr>errors := errors p @ [(Tuple pos, mismatched_msg (last (tags_stack p)) tag)]\<rparr>
         \<and> dispatch (dispatch p (Close tag pos)) (Close (last (tags_stack p)) pos') =
           p\<lparr>errors := errors p @ [(Tuple pos, mismatched_msg (last (tags_stack p)) tag)],
             tags_stack := butlast (tags_stack p)\<rparr>
         \<and> mismatched_msg (last (tags_stack p)) tag =
           ''Mismatched closing tag: expected </'' @ last (tags_stack p)
             @ ''> but got </'' @ tag @ ''>''
         \<and> errors (dispatch p (Close tag pos)) =
           errors p @ [(Tuple pos, ''Mismatched closing tag: expected </'' @ last (tags_stack p)
                                     @ ''> but got </'' @ tag @ ''>'')]
         \<and> tags_stack (dispatch p (Close tag pos)) = tags_stack p"
proof -
  let ?top = "last (tags_stack p)"
  let ?p1 = "p\<lparr>errors := errors p @ [(Tuple pos, mismatched_msg ?top tag)]\<rparr>"
  have first: "dispatch p (Close tag pos) = ?p1"
    using assms by (simp add: handle_endtag_def Let_def)
  have "?top \<in> set (tags_stack p)"
    using assms(1) by simp
  with assms(2) have top: "?top \<notin> HTML_VOID_ELEMENTS"
    by (simp add: void_free_def list_all_iff)
  have second: "dispatch ?p1 (Close ?top pos') = ?p1\<lparr>tags_stack := butlast (tags_stack p)\<rparr>"
    using assms(1,3) top by (simp add: handle_endtag_def Let_def)
  have wording: "mismatched_msg ?top tag =
      ''Mismatched closing tag: expected </'' @ ?top @ ''> but got </'' @ tag @ ''>''"
    by (simp only: mismatched_msg_def)
  have errs: "errors (dispatch p (Close tag pos)) =
      errors p @ [(Tuple pos, ''Mismatched closing tag: expected </'' @ ?top
                                @ ''> but got </'' @ tag @ ''>'')]"
    unfolding first wording by simp
  have stack: "tags_stack (dispatch p (Close tag pos)) = tags_stack p"
    unfolding first by simp
  have both: "dispatch (dispatch p (Close tag pos)) (Close ?top pos') =
      p\<lparr>errors := errors p @ [(Tuple pos, mismatched_msg ?top tag)],
        tags_stack := butlast (tags_stack p)\<rparr>"
    unfolding first second by simp
  from first both wording errs stack show ?thesis
    by (intro conjI)
qed

theorem mismatched_close_keeps_stack_witness:
  "dispatch \<lparr>tags_stack = [''div'', ''span''], errors = [], tags_count = 2,
             is_in_raw_context = False\<rparr> (Close ''div'' (1, 17))
   = \<lparr>tags_stack = [''div'', ''span''],
      errors = [(Tuple (1, 17), ''Mismatched closing tag: expected </span> but got </div>'')],
      tags_count = 2, is_in_raw_context = False\<rparr>
   \<and> dispatch (dispatch \<lparr>tags_stack = [''div'', ''span''], errors = [], tags_count = 2,
             is_in_raw_context = False\<rparr> (Close ''div'' (1, 17))) (Close ''span'' (1, 23))
   = \<lparr>tags_stack = [''div''],
      errors = [(Tuple (1, 17), ''Mismatched closing tag: expected </span> but got </div>'')],
      tags_count = 2, is_in_raw_context = False\<rparr>"
proof -
  let ?p = "\<lparr>tags_stack = [''div'', ''span''], errors = [], tags_count = 2,
             is_in_raw_context = False\<rparr>"
  have h: "tags_stack ?p \<noteq> []" "void_free (tags_stack ?p)" "\<not> is_in_raw_context ?p"
    "''div'' \<notin> HTML_VOID_ELEMENTS" "''div'' \<notin> raw_context_tags"
    "last (tags_stack ?p) \<noteq> ''div''"
    by (simp_all add: void_free_def HTML_VOID_ELEMENTS_def raw_context_tags_def)
  from mismatched_close_keeps_stack [OF h, of "(1, 17)" "(1, 23)"]
  have "dispatch ?p (Close ''div'' (1, 17)) =
          ?p\<lparr>errors := errors ?p @ [(Tuple (1, 17), mismatched_msg (last (tags_stack ?p)) ''div'')]\<rparr>"
    and "dispatch (dispatch ?p (Close ''div'' (1, 17))) (Close (last (tags_stack ?p)) (1, 23)) =
          ?p\<lparr>errors := errors ?p @ [(Tuple (1, 17), mismatched_msg (last (tags_stack ?p)) ''div'')],
            tags_stack := butlast (tags_stack ?p)\<rparr>"
    and "mismatched_msg (last (tags_stack ?p)) ''div'' =
          ''Mismatched closing tag: expected </'' @ last (tags_stack ?p)
            @ ''> but got </'' @ ''div'' @ ''>''"
    by blast+
  then show ?thesis
    by simp
qed

section \<open>Raw context\<close>

lemma feed_append: "feed p (xs @ ys) = feed (feed p xs) ys"
  by (induction xs arbitrary: p) simp_all

lemma dispatch_nested_in_raw:
  "is_in_raw_context p \<Longrightarrow> nested_in_raw e \<Longrightarrow>
   dispatch p e = p\<lparr>tags_count := tags_count p + (if is_open e then 1 else 0)\<rparr>"
  by (cases e) (simp_all add: handle_starttag_def handle_endtag_def Let_def)

lemma feed_nested_in_raw:
  "is_in_raw_context p \<Longrightarrow> \<forall>e\<in>set span. nested_in_raw e \<Longrightarrow>
   feed p span = p\<lparr>tags_count := tags_count p + int (length (filter is_open span))\<rparr>"
proof (induction span arbitrary: p)
  case Nil
  then show ?case by simp
next
  case (Cons e span)
  let ?q = "p\<lparr>tags_count := tags_count p + (if is_open e then 1 else 0)\<rparr>"
  from Cons.prems have step: "dispatch p e = ?q"
    by (simp add: dispatch_nested_in_raw)
  from Cons.prems have "is_in_raw_context ?q" and "\<forall>e\<in>set span. nested_in_raw e"
    by simp_all
  then have "feed ?q span = ?q\<lparr>tags_count := tags_count ?q + int (length (filter is_open span))\<rparr>"
    by (rule Cons.IH)
  with step show ?case by simp
qed

lemma dispatch_tags_count_update:
  "dispatch (p\<lparr>tags_count := k\<rparr>) e =
     (dispatch p e)\<lparr>tags_count := k + (if is_open e then 1 else 0)\<rparr>"
  by (cases e) (simp_all add: handle_starttag_def handle_endtag_def error_def Let_def)

lemma feed_tags_count_update:
  "feed (p\<lparr>tags_count := k\<rparr>) es =
     (feed p es)\<lparr>tags_count := k + int (length (filter is_open es))\<rparr>"
proof (induction es arbitrary: p k)
  case Nil
  then show ?case by simp
next
  case (Cons e es)
  show ?case
    by (simp only: feed.simps dispatch_tags_count_update Cons.IH) simp
qed

text \<open>
  C4. In a raw context, a run of \<open>Open\<close> events and of \<open>Close\<close> events whose name is
  not a raw-content name changes only the tag counter: no diagnostic, no change of the
  stack, and the parser stays in the raw context. Such a run inside a document
  contributes nothing to the diagnostics of the document, those of the end of the input
  included.
\<close>

theorem nested_tags_in_raw_span_are_silent:
  assumes "is_in_raw_context p" and "\<forall>e\<in>set span. nested_in_raw e"
  shows "feed p span = p\<lparr>tags_count := tags_count p + int (length (filter is_open span))\<rparr>
         \<and> (p = feed new_parser before \<longrightarrow>
              fst (validate_html (before @ span @ after)) =
              fst (validate_html (before @ after)))"
proof -
  let ?n = "tags_count p + int (length (filter is_open span))"
  have span: "feed p span = p\<lparr>tags_count := ?n\<rparr>"
    using assms by (rule feed_nested_in_raw)
  have out: "fst (validate_html (before @ span @ after)) = fst (validate_html (before @ after))"
    if "p = feed new_parser before"
  proof -
    have "feed new_parser (before @ span @ after) = feed (p\<lparr>tags_count := ?n\<rparr>) after"
      using that span by (simp add: feed_append)
    also have "\<dots> = (feed p after)\<lparr>tags_count := ?n + int (length (filter is_open after))\<rparr>"
      by (rule feed_tags_count_update)
    finally have "feed new_parser (before @ span @ after) =
        (feed new_parser (before @ after))
          \<lparr>tags_count := ?n + int (length (filter is_open after))\<rparr>"
      using that by (simp add: feed_append)
    then show ?thesis
      by (simp add: validate_html_def Let_def)
  qed
  from span out show ?thesis by blast
qed

theorem nested_tags_in_raw_span_are_silent_witness:
  "feed (feed new_parser [Open ''div'' [], Open ''script'' []])
        [Open ''b'' [], Close ''i'' (2, 1), Close ''div'' (2, 5), Open ''br'' []]
     = \<lparr>tags_stack = [''div'', ''script''], errors = [], tags_count = 4,
        is_in_raw_context = True\<rparr>
   \<and> fst (validate_html ([Open ''div'' [], Open ''script'' []]
            @ [Open ''b'' [], Close ''i'' (2, 1), Close ''div'' (2, 5), Open ''br'' []]
            @ [Close ''script'' (3, 1), Close ''div'' (3, 10)])) = []"
proof -
  let ?before = "[Open ''div'' [], Open ''script'' []]"
  let ?span = "[Open ''b'' [], Close ''i'' (2, 1), Close ''div'' (2, 5), Open ''br'' []]"
  let ?after = "[Close ''script'' (3, 1), Close ''div'' (3, 10)]"
  have p: "feed new_parser ?before =
      \<lparr>tags_stack = [''div'', ''script''], errors = [], tags_count = 2,
       is_in_raw_context = True\<rparr>"
    by (simp add: new_parser_def handle_starttag_def Let_def HTML_VOID_ELEMENTS_def
        raw_context_tags_def)
  have h1: "is_in_raw_context (feed new_parser ?before)"
    unfolding p by simp
  have h2: "\<forall>e\<in>set ?span. nested_in_raw e"
    by (simp add: raw_context_tags_def)
  have plain: "fst (validate_html (?before @ ?after)) = []"
    by (simp add: validate_html_def new_parser_def handle_starttag_def handle_endtag_def Let_def
        HTML_VOID_ELEMENTS_def raw_context_tags_def)
  from nested_tags_in_raw_span_are_silent [OF h1 h2, of ?before ?after]
  have "feed (feed new_parser ?before) ?span =
          (feed new_parser ?before)\<lparr>tags_count := tags_count (feed new_parser ?before)
             + int (length (filter is_open ?span))\<rparr>"
    and "fst (validate_html (?before @ ?span @ ?after)) = fst (validate_html (?before @ ?after))"
    by blast+
  then show ?thesis
    unfolding p plain by simp
qed

section \<open>Raw-content elements and the stack\<close>

lemma prefix_dispatch:
  assumes "prefix (pre @ [tag]) (tags_stack p)" and "\<not> closes tag e"
  shows "prefix (pre @ [tag]) (tags_stack (dispatch p e))"
proof (cases e)
  case (Open t attrs)
  with assms(1) show ?thesis
    by (auto simp: handle_starttag_def Let_def prefix_def)
next
  case (Close name pos)
  with assms(2) have neq: "name \<noteq> tag" by simp
  from assms(1) obtain more where st: "tags_stack p = (pre @ [tag]) @ more"
    by (auto simp: prefix_def)
  have pop: "prefix (pre @ [tag]) (butlast (tags_stack p))" if "last (tags_stack p) = name"
  proof -
    from that neq st have "more \<noteq> []" by auto
    with st have "butlast (tags_stack p) = (pre @ [tag]) @ butlast more"
      by (simp add: butlast_append)
    then show ?thesis by (simp add: prefix_def)
  qed
  from st have "tags_stack p \<noteq> []" by simp
  with Close assms(1) pop show ?thesis
    by (simp add: handle_endtag_def Let_def)
next
  case (LexError message pos)
  with assms(1) show ?thesis by (simp add: error_def)
qed

lemma prefix_feed:
  "prefix (pre @ [tag]) (tags_stack p) \<Longrightarrow> \<forall>e\<in>set es. \<not> closes tag e \<Longrightarrow>
   prefix (pre @ [tag]) (tags_stack (feed p es))"
  by (induction es arbitrary: p) (simp_all add: prefix_dispatch)

text \<open>
  C1, as the code has it. An \<open>Open\<close> event of a raw-content name that arrives outside a
  raw context enters the raw context and pushes the name onto the stack. If no
  \<open>Close\<close> event of that name follows, the name stays on the stack and the end of the
  input reports it with an \<open>Unclosed tag\<close> diagnostic.
\<close>

theorem raw_open_is_pushed:
  assumes "\<not> is_in_raw_context p" and "tag \<in> raw_context_tags"
    and "\<forall>e\<in>set rest. \<not> closes tag e"
  shows "dispatch p (Open tag attrs) =
           p\<lparr>tags_count := tags_count p + 1, is_in_raw_context := True,
             tags_stack := tags_stack p @ [tag]\<rparr>
         \<and> prefix (tags_stack p @ [tag]) (tags_stack (feed p (Open tag attrs # rest)))
         \<and> (p = feed new_parser before \<longrightarrow>
              unclosed tag \<in> set (fst (validate_html (before @ Open tag attrs # rest))))"
proof -
  from assms(2) have nv: "tag \<notin> HTML_VOID_ELEMENTS"
    using void_not_raw by blast
  have push: "dispatch p (Open tag attrs) =
      p\<lparr>tags_count := tags_count p + 1, is_in_raw_context := True,
        tags_stack := tags_stack p @ [tag]\<rparr>"
    using assms(1,2) nv by (simp add: handle_starttag_def Let_def)
  then have "prefix (tags_stack p @ [tag]) (tags_stack (dispatch p (Open tag attrs)))"
    by simp
  then have kept: "prefix (tags_stack p @ [tag]) (tags_stack (feed p (Open tag attrs # rest)))"
    using assms(3) by (simp add: prefix_feed)
  have out: "unclosed tag \<in> set (fst (validate_html (before @ Open tag attrs # rest)))"
    if "p = feed new_parser before"
  proof -
    let ?final = "feed new_parser (before @ Open tag attrs # rest)"
    from that kept have "prefix (tags_stack p @ [tag]) (tags_stack ?final)"
      by (simp add: feed_append)
    then have "tag \<in> set (tags_stack ?final)"
      by (auto simp: prefix_def)
    then show ?thesis
      by (auto simp: validate_html_def Let_def append_unclosed_eq)
  qed
  from push kept out show ?thesis by blast
qed

theorem raw_open_is_pushed_witness:
  "dispatch \<lparr>tags_stack = [''div''], errors = [], tags_count = 1, is_in_raw_context = False\<rparr>
      (Open ''pre'' [])
     = \<lparr>tags_stack = [''div'', ''pre''], errors = [], tags_count = 2,
        is_in_raw_context = True\<rparr>
   \<and> (Tuple (0, 0), ''Unclosed tag: pre'')
       \<in> set (fst (validate_html
           ([Open ''div'' []] @ Open ''pre'' [] # [Open ''b'' [], Close ''div'' (4, 1)])))"
proof -
  let ?p = "\<lparr>tags_stack = [''div''], errors = [], tags_count = 1, is_in_raw_context = False\<rparr>"
  have reached: "?p = feed new_parser [Open ''div'' []]"
    by (simp add: new_parser_def handle_starttag_def Let_def HTML_VOID_ELEMENTS_def
        raw_context_tags_def)
  have h: "\<not> is_in_raw_context ?p" "''pre'' \<in> raw_context_tags"
    "\<forall>e\<in>set [Open ''b'' [], Close ''div'' (4, 1)]. \<not> closes ''pre'' e"
    by (simp_all add: raw_context_tags_def)
  from raw_open_is_pushed [OF h, of "[]" "[Open ''div'' []]"] reached
  have "dispatch ?p (Open ''pre'' []) =
          ?p\<lparr>tags_count := tags_count ?p + 1, is_in_raw_context := True,
            tags_stack := tags_stack ?p @ [''pre'']\<rparr>"
    and "unclosed ''pre'' \<in> set (fst (validate_html
           ([Open ''div'' []] @ Open ''pre'' [] # [Open ''b'' [], Close ''div'' (4, 1)])))"
    by blast+
  then show ?thesis
    by (simp add: unclosed_def unclosed_msg_def)
qed

text \<open>
  C1 as stated fails: opening \<open>pre\<close> in a new parser leaves \<open>pre\<close> on the stack, and the
  document that only opens it gets the diagnostic \<open>Unclosed tag: pre\<close>.
\<close>

theorem raw_open_not_pushed_counterexample:
  "''pre'' \<in> raw_context_tags \<and> \<not> is_in_raw_context new_parser
   \<and> tags_stack (dispatch new_parser (Open ''pre'' [])) = [''pre'']
   \<and> fst (validate_html [Open ''pre'' []]) = [(Tuple (0, 0), ''Unclosed tag: pre'')]"
  by (simp add: validate_html_def new_parser_def handle_starttag_def Let_def
      HTML_VOID_ELEMENTS_def raw_context_tags_def unclosed_msg_def)

section \<open>The Moodle multichoice checker raises where it should report\<close>

lemma check_question_no_diagnostic:
  "check_question errs q = Inr errs' \<Longrightarrow> errs' = errs"
  by (auto simp: check_question_def append_at_sourceline_def sourceline_def Let_def
      split: if_splits sum.splits)

lemma check_questions_no_diagnostic:
  "check_questions errs questions = Inr errs' \<Longrightarrow> errs' = errs"
proof (induction questions arbitrary: errs)
  case Nil
  then show ?case by simp
next
  case (Cons q questions)
  then show ?case
    by (auto split: sum.splits dest: check_question_no_diagnostic)
qed

lemma validate_moodle_mc_no_diagnostic:
  "validate_moodle_mc root = Inr errs \<Longrightarrow> errs = []"
  unfolding validate_moodle_mc_def by (rule check_questions_no_diagnostic)

text \<open>
  C7. A multichoice question that lacks its \<open>name\<close> child and every \<open>answer\<close> child
  should give two diagnostics at the position of the question. The checker finds the
  question, and the read of \<open>q.sourceline\<close> for the first diagnostic raises
  \<open>AttributeError\<close>: the checker returns no diagnostic, and the exception leaves
  \<open>validate_file\<close>, which catches only the parse error.
\<close>

theorem moodle_missing_children_raises:
  "findall_multichoice
     (Element ''quiz'' []
        [Element ''question'' [(''type'', ''multichoice'')] [Element ''questiontext'' [] []]])
     = [Element ''question'' [(''type'', ''multichoice'')] [Element ''questiontext'' [] []]]
   \<and> validate_moodle_mc
     (Element ''quiz'' []
        [Element ''question'' [(''type'', ''multichoice'')] [Element ''questiontext'' [] []]])
     = Inl (AttributeError ''sourceline'')
   \<and> validate_file tokenize
       (\<lambda>text. Inr (Element ''quiz'' []
          [Element ''question'' [(''type'', ''multichoice'')] [Element ''questiontext'' [] []]]))
       content ''XML'' (Some ''moodlemc'')
     = Inl (AttributeError ''sourceline'')"
  by (simp add: validate_file_def validate_xml_def validate_moodle_mc_def
      findall_multichoice_def get_attr_def check_question_def find_child_def
      findall_children_def append_at_sourceline_def sourceline_def)

section \<open>Tree parse failure\<close>

text \<open>
  C8. When the tree parser fails on a document, \<open>validate_file\<close> returns exactly one
  diagnostic, with the position and the message of the parse error, an error count of
  one and a tag count of zero; the result is the same for every schema checker, so the
  checker has no part in it.
\<close>

theorem parse_failure_single_diagnostic:
  assumes "fromstring content = Inl (ParseError position msg)"
  shows "validate_file tokenize fromstring content ''XML'' schema_option =
           Inr ([(Tuple position, msg)], \<lparr>tags = 0, errors_total = 1\<rparr>)
         \<and> (\<forall>checker. validate_xml checker fromstring content schema_option =
               Inr ([(Tuple position, msg)], \<lparr>tags = 0, errors_total = 1\<rparr>))"
  using assms by (simp add: validate_file_def validate_xml_def)

theorem parse_failure_single_diagnostic_witness:
  "validate_file (\<lambda>text. [])
     (\<lambda>text. if text = ''<quiz>''
              then Inl (ParseError (1, 6) ''no element found: line 1, column 6'')
              else Inr (Element ''quiz'' [] []))
     ''<quiz>'' ''XML'' (Some ''moodlemc'')
   = Inr ([(Tuple (1, 6), ''no element found: line 1, column 6'')],
          \<lparr>tags = 0, errors_total = 1\<rparr>)"
proof -
  let ?parse = "\<lambda>text. if text = ''<quiz>''
              then Inl (ParseError (1, 6) ''no element found: line 1, column 6'')
              else Inr (Element ''quiz'' [] [])"
  have h: "?parse ''<quiz>'' = Inl (ParseError (1, 6) ''no element found: line 1, column 6'')"
    by simp
  from parse_failure_single_diagnostic [of ?parse "''<quiz>''", OF h,
      of "\<lambda>text. []" "Some ''moodlemc''"]
  show ?thesis by blast
qed

section \<open>Format detection\<close>

text \<open>
  C10. On the lower-cased first 200 characters of the text, \<open>detect_format\<close> answers
  \<open>HTML\<close> whenever they contain \<open><html\<close>, also when they contain \<open><quiz\<close> or
  \<open><question\<close>; it answers \<open>XML\<close> when they contain \<open><quiz\<close> or \<open><question\<close>
  and not \<open><html\<close>; and \<open>Unknown\<close> otherwise.
\<close>

theorem detect_format_precedence:
  "(sublist ''<html'' (lower (take 200 text)) \<longrightarrow> detect_format lower text = ''HTML'')
   \<and> (\<not> sublist ''<html'' (lower (take 200 text))
        \<and> (sublist ''<quiz'' (lower (take 200 text))
             \<or> sublist ''<question'' (lower (take 200 text)))
       \<longrightarrow> detect_format lower text = ''XML'')
   \<and> (\<not> sublist ''<html'' (lower (take 200 text))
        \<and> \<not> sublist ''<quiz'' (lower (take 200 text))
        \<and> \<not> sublist ''<question'' (lower (take 200 text))
       \<longrightarrow> detect_format lower text = ''Unknown'')"
  by (simp add: detect_format_def Let_def)

theorem detect_format_precedence_witness:
  "detect_format ascii_lower ''<HTML><quiz>'' = ''HTML''
   \<and> detect_format ascii_lower ''<?xml?><Question>'' = ''XML''
   \<and> detect_format ascii_lower ''<body>'' = ''Unknown''"
proof -
  have a: "sublist ''<html'' (ascii_lower (take 200 ''<HTML><quiz>''))"
    by (simp add: ascii_lower_def sublist_code)
  have b: "\<not> sublist ''<html'' (ascii_lower (take 200 ''<?xml?><Question>''))
           \<and> (sublist ''<quiz'' (ascii_lower (take 200 ''<?xml?><Question>''))
                \<or> sublist ''<question'' (ascii_lower (take 200 ''<?xml?><Question>'')))"
    by (simp add: ascii_lower_def sublist_code)
  have c: "\<not> sublist ''<html'' (ascii_lower (take 200 ''<body>''))
           \<and> \<not> sublist ''<quiz'' (ascii_lower (take 200 ''<body>''))
           \<and> \<not> sublist ''<question'' (ascii_lower (take 200 ''<body>''))"
    by (simp add: ascii_lower_def sublist_code)
  from a b c
    detect_format_precedence [of ascii_lower "''<HTML><quiz>''"]
    detect_format_precedence [of ascii_lower "''<?xml?><Question>''"]
    detect_format_precedence [of ascii_lower "''<body>''"]
  show ?thesis by blast
qed


end
